theory Spec2Isabelle
  imports Main "HOL-Library.Char_ord"
begin

section \<open>Data model of \<open>remove_duplicates.py\<close>\<close>

text \<open>
  A Python \<open>dict\<close> keeps its keys in insertion order and holds each key once. It is
  modelled as an association list: \<open>k in d\<close> and \<open>d[k]\<close> are \<open>map_of d k\<close>, iteration
  over the keys is \<open>map fst d\<close>, \<open>d.values()\<close> is \<open>map snd d\<close>, and \<open>d[k] = v\<close> is
  \<open>dict_set\<close> below. A list is a dict when its keys are distinct.

  A Python \<open>str\<close> is modelled as a HOL \<open>string\<close>. \<open>str.lower\<close> is modelled on the
  ASCII letters; every other character is left as it is.
\<close>

type_synonym ('k, 'v) dict = "('k \<times> 'v) list"

type_synonym row = "(string, string) dict"

type_synonym method_and_params = "(string, string) dict"

type_synonym criteria = "(string, method_and_params) dict"

type_synonym tracked_rows = "(string, row) dict"

text \<open>
  The exceptions the source raises, each with its message. \<open>IndexError\<close> is what
  Python raises for \<open>value_hash_functions[i]\<close> with \<open>i\<close> out of range.
\<close>

datatype error = KeyError string | ValueError string | IndexError

text \<open>
  \<open>unique_rows[hashed_key] = row\<close>: an existing key keeps its position and gets the
  new value, a new key is appended.
\<close>

primrec dict_set :: "'k \<Rightarrow> 'v \<Rightarrow> ('k, 'v) dict \<Rightarrow> ('k, 'v) dict" where
  "dict_set k v [] = [(k, v)]"
| "dict_set k v (p # ps) = (if fst p = k then (k, v) # ps else p # dict_set k v ps)"

definition ATTRIBUTE_METHOD :: string where
  "ATTRIBUTE_METHOD = ''method''"

definition METHOD_EXACT :: string where
  "METHOD_EXACT = ''exact''"

definition METHOD_EXACT_CASE_INSENSITIVE :: string where
  "METHOD_EXACT_CASE_INSENSITIVE = ''exact_case_insensitive''"

definition METHOD_EXACT_LOWERCASE_ALPHANUMERIC :: string where
  "METHOD_EXACT_LOWERCASE_ALPHANUMERIC = ''exact_lower_alphanumeric''"

section \<open>String processing\<close>

text \<open>\<open>x.lower()\<close>, character by character.\<close>

definition lower_char :: "char \<Rightarrow> char" where
  "lower_char c =
     (if CHR ''A'' \<le> c \<and> c \<le> CHR ''Z'' then char_of (of_char c + (32 :: nat)) else c)"

definition lower :: "string \<Rightarrow> string" where
  "lower x = map lower_char x"

text \<open>The character class \<open>[a-z0-9]\<close> of the pattern.\<close>

definition in_class :: "char \<Rightarrow> bool" where
  "in_class c \<longleftrightarrow> (CHR ''a'' \<le> c \<and> c \<le> CHR ''z'') \<or> (CHR ''0'' \<le> c \<and> c \<le> CHR ''9'')"

text \<open>
  \<open>re.sub("[^a-z0-9]+", "", x)\<close>: scanning from the left, a character of the class
  is copied; at a character outside the class the pattern matches the longest run of
  such characters, and the run is replaced by the empty string.
\<close>

function re_sub :: "string \<Rightarrow> string" where
  "re_sub [] = []"
| "re_sub (c # cs) =
     (if in_class c then c # re_sub cs
      else re_sub (dropWhile (\<lambda>d. \<not> in_class d) cs))"
  by pat_completeness auto
termination
  by (relation "measure length") (auto simp: less_Suc_eq_le length_dropWhile_le)

section \<open>The source's functions\<close>

definition msg_no_method :: string where
  "msg_no_method = ''The given method dictionary contains no '' @ [CHR 0x27] @ ATTRIBUTE_METHOD @ [CHR 0x27] @ '' key.''"

definition msg_not_recognised :: "string \<Rightarrow> string" where
  "msg_not_recognised method =
     ''The value hash method '' @ [CHR 0x27] @ method @ [CHR 0x27] @ '' was not recognised''"

definition msg_no_column :: "string \<Rightarrow> string" where
  "msg_no_column column_key =
     ''The given column key ('' @ [CHR 0x27] @ column_key @ [CHR 0x27]
       @ '') does not exist in the current row of data.''"

definition get_value_hash_function :: "method_and_params \<Rightarrow> error + (string \<Rightarrow> string)" where
  "get_value_hash_function method_and_params =
     (case map_of method_and_params ATTRIBUTE_METHOD of
        Some method \<Rightarrow>
          if method = METHOD_EXACT then Inr (\<lambda>x. x)
          else if method = METHOD_EXACT_CASE_INSENSITIVE then Inr (\<lambda>x. lower x)
          else if method = METHOD_EXACT_LOWERCASE_ALPHANUMERIC then Inr (\<lambda>x. re_sub (lower x))
          else Inl (ValueError (msg_not_recognised method))
      | None \<Rightarrow> Inl (KeyError msg_no_method))"

text \<open>
  The loop of \<open>track_row\<close> over \<open>enumerate(column_keys)\<close>, with the index \<open>i\<close> and
  the key built so far.
\<close>

fun hashed_key_loop ::
  "row \<Rightarrow> (string \<Rightarrow> string) list \<Rightarrow> nat \<Rightarrow> string list \<Rightarrow> string \<Rightarrow> error + string" where
  "hashed_key_loop row value_hash_functions i [] hashed_key = Inr hashed_key"
| "hashed_key_loop row value_hash_functions i (column_key # column_keys) hashed_key =
     (case map_of row column_key of
        Some v \<Rightarrow>
          if i < length value_hash_functions
          then hashed_key_loop row value_hash_functions (Suc i) column_keys
                 (hashed_key @ (value_hash_functions ! i) v)
          else Inl IndexError
      | None \<Rightarrow> Inl (KeyError (msg_no_column column_key)))"

definition track_row ::
  "row \<Rightarrow> string list \<Rightarrow> (string \<Rightarrow> string) list \<Rightarrow> tracked_rows \<Rightarrow> error + tracked_rows" where
  "track_row row column_keys value_hash_functions unique_rows =
     (case hashed_key_loop row value_hash_functions 0 column_keys [] of
        Inl e \<Rightarrow> Inl e
      | Inr hashed_key \<Rightarrow> Inr (dict_set hashed_key row unique_rows))"

text \<open>
  The list comprehension
  \<open>[get_value_hash_function(criteria[column_key]) for column_key in criteria]\<close>,
  over the keys still to visit. It stops at the first descriptor that does not resolve.
\<close>

fun vhfs_loop :: "criteria \<Rightarrow> string list \<Rightarrow> error + (string \<Rightarrow> string) list" where
  "vhfs_loop criteria [] = Inr []"
| "vhfs_loop criteria (column_key # column_keys) =
     (case map_of criteria column_key of
        None \<Rightarrow> Inl (KeyError column_key)
      | Some method_and_params \<Rightarrow>
          (case get_value_hash_function method_and_params of
             Inl e \<Rightarrow> Inl e
           | Inr f \<Rightarrow>
               (case vhfs_loop criteria column_keys of
                  Inl e \<Rightarrow> Inl e
                | Inr fs \<Rightarrow> Inr (f # fs))))"

text \<open>
  The loop of \<open>remove_duplicates\<close> over the rows the reader yields. The state is
  \<open>tracked_rows\<close> and \<open>row_count\<close>; the value hash functions are resolved again for
  every row, inside the loop.
\<close>

fun rows_loop :: "criteria \<Rightarrow> row list \<Rightarrow> tracked_rows \<times> int \<Rightarrow> error + tracked_rows \<times> int" where
  "rows_loop criteria [] state = Inr state"
| "rows_loop criteria (row # rows) (tracked, row_count) =
     (case vhfs_loop criteria (map fst criteria) of
        Inl e \<Rightarrow> Inl e
      | Inr vhfs \<Rightarrow>
          (case track_row row (map fst criteria) vhfs tracked of
             Inl e \<Rightarrow> Inl e
           | Inr tracked' \<Rightarrow> rows_loop criteria rows (tracked', row_count + 1)))"

text \<open>
  What a successful call of \<open>remove_duplicates\<close> gives: the two numbers of the line
  it prints (\<open>Removed {removed} duplicate(s) from {total} row(s).\<close>) and the returned
  \<open>tracked_rows.values()\<close>.
\<close>

record summary =
  removed :: int
  total :: int
  returned :: "row list"

text \<open>
  \<open>remove_duplicates\<close>, on the rows that \<open>csv.DictReader\<close> yields for the source file.
\<close>

definition remove_duplicates :: "row list \<Rightarrow> criteria \<Rightarrow> error + summary" where
  "remove_duplicates source criteria =
     (case rows_loop criteria source ([], 0) of
        Inl e \<Rightarrow> Inl e
      | Inr (tracked, row_count) \<Rightarrow>
          Inr \<lparr>removed = row_count - int (length tracked), total = row_count,
               returned = map snd tracked\<rparr>)"

text \<open>
  \<open>main\<close>, on the rows of the data file and the parsed specification: the rows handed
  to \<open>to_csv\<close>, or the exception that left \<open>remove_duplicates\<close>, in which case
  \<open>to_csv\<close> is not reached and no file is written.
\<close>

definition main :: "row list \<Rightarrow> criteria \<Rightarrow> error + row list" where
  "main datafile specification_dict =
     (case remove_duplicates datafile specification_dict of
        Inl e \<Rightarrow> Inl e
      | Inr results \<Rightarrow> Inr (returned results))"

text \<open>
  The composite key of a row under a specification: what one pass of the loop body
  of \<open>remove_duplicates\<close> computes for \<open>hashed_key\<close>, or the exception it raises.
\<close>

definition composite_key :: "criteria \<Rightarrow> row \<Rightarrow> error + string" where
  "composite_key criteria row =
     (case vhfs_loop criteria (map fst criteria) of
        Inl e \<Rightarrow> Inl e
      | Inr vhfs \<Rightarrow> hashed_key_loop row vhfs 0 (map fst criteria) [])"

section \<open>Regular expression and dictionary lemmas\<close>



lemma map_of_dict_set: "map_of (dict_set k v d) = (map_of d)(k \<mapsto> v)"
  by (induction d) (auto simp: fun_eq_iff)

lemma keys_dict_set:
  "map fst (dict_set k v d) = (if k \<in> fst ` set d then map fst d else map fst d @ [k])"
  by (induction d) auto

lemma key_set_dict_set: "fst ` set (dict_set k v d) = insert k (fst ` set d)"
proof -
  have "set (map fst (dict_set k v d)) = insert k (set (map fst d))"
    unfolding keys_dict_set by auto
  then show ?thesis by simp
qed

lemma distinct_dict_set: "distinct (map fst d) \<Longrightarrow> distinct (map fst (dict_set k v d))"
  by (simp add: keys_dict_set)

lemma dict_set_fresh: "k \<notin> fst ` set d \<Longrightarrow> dict_set k v d = d @ [(k, v)]"
  by (induction d) auto

lemma set_dict_set_subset: "set (dict_set k v d) \<subseteq> insert (k, v) (set d)"
  by (induction d) auto

lemma filter_key_single:
  "distinct (map fst d) \<Longrightarrow> map_of d k = Some v \<Longrightarrow> filter (\<lambda>p. fst p = k) d = [(k, v)]"
proof (induction d)
  case Nil
  then show ?case by simp
next
  case (Cons p d)
  show ?case
  proof (cases "fst p = k")
    case True
    with Cons.prems have "p = (k, v)" by (cases p) simp
    moreover from True Cons.prems(1) have "k \<notin> fst ` set d" by auto
    then have "\<forall>q\<in>set d. fst q \<noteq> k" by (metis imageI)
    then have "filter (\<lambda>q. fst q = k) d = []" by (simp add: filter_empty_conv)
    ultimately show ?thesis by simp
  next
    case False
    with Cons show ?thesis by (cases p) auto
  qed
qed

section \<open>The loop over the rows\<close>

lemma rows_loop_step:
  "rows_loop criteria (row # rows) (tracked, n) =
     (case composite_key criteria row of
        Inl e \<Rightarrow> Inl e
      | Inr k \<Rightarrow> rows_loop criteria rows (dict_set k row tracked, n + 1))"
  by (simp add: composite_key_def track_row_def split: sum.splits)

lemma rows_loop_count:
  "rows_loop criteria rows (t0, n0) = Inr (t, n) \<Longrightarrow> n = n0 + int (length rows)"
proof (induction rows arbitrary: t0 n0)
  case Nil
  then show ?case by simp
next
  case (Cons row rows)
  from Cons.prems obtain k' where k': "composite_key criteria row = Inr k'"
    and rest: "rows_loop criteria rows (dict_set k' row t0, n0 + 1) = Inr (t, n)"
    by (auto simp: rows_loop_step simp del: rows_loop.simps split: sum.splits)
  from Cons.IH [OF rest] show ?case by simp
qed

lemma rows_loop_keys_exist:
  "rows_loop criteria rows (t0, n0) = Inr (t, n) \<Longrightarrow> r \<in> set rows \<Longrightarrow>
     \<exists>k. composite_key criteria r = Inr k"
proof (induction rows arbitrary: t0 n0)
  case Nil
  then show ?case by simp
next
  case (Cons row rows)
  then show ?case
    by (auto simp: rows_loop_step simp del: rows_loop.simps split: sum.splits)
qed

lemma rows_loop_succeeds:
  "\<forall>r\<in>set rows. \<exists>k. composite_key criteria r = Inr k \<Longrightarrow>
     \<exists>t n. rows_loop criteria rows (t0, n0) = Inr (t, n)"
proof (induction rows arbitrary: t0 n0)
  case Nil
  then show ?case by simp
next
  case (Cons row rows)
  then show ?case
    by (auto simp: rows_loop_step simp del: rows_loop.simps split: sum.splits)
qed

lemma rows_loop_lookup:
  "rows_loop criteria rows (t0, n0) = Inr (t, n) \<Longrightarrow>
     map_of t k =
       (case filter (\<lambda>r. composite_key criteria r = Inr k) rows of
          [] \<Rightarrow> map_of t0 k
        | r # rs \<Rightarrow> Some (last (r # rs)))"
proof (induction rows arbitrary: t0 n0)
  case Nil
  then show ?case by simp
next
  case (Cons row rows)
  from Cons.prems obtain k' where k': "composite_key criteria row = Inr k'"
    and rest: "rows_loop criteria rows (dict_set k' row t0, n0 + 1) = Inr (t, n)"
    by (auto simp: rows_loop_step simp del: rows_loop.simps split: sum.splits)
  from Cons.IH [OF rest] show ?case
    using k' by (auto simp: map_of_dict_set split: list.splits)
qed

lemma rows_loop_distinct:
  "rows_loop criteria rows (t0, n0) = Inr (t, n) \<Longrightarrow> distinct (map fst t0) \<Longrightarrow>
     distinct (map fst t)"
proof (induction rows arbitrary: t0 n0)
  case Nil
  then show ?case by simp
next
  case (Cons row rows)
  from Cons.prems obtain k' where k': "composite_key criteria row = Inr k'"
    and rest: "rows_loop criteria rows (dict_set k' row t0, n0 + 1) = Inr (t, n)"
    by (auto simp: rows_loop_step simp del: rows_loop.simps split: sum.splits)
  from Cons.IH [OF rest] Cons.prems(2) show ?case
    by (simp add: distinct_dict_set)
qed

lemma rows_loop_key_set:
  "rows_loop criteria rows (t0, n0) = Inr (t, n) \<Longrightarrow>
     fst ` set t = fst ` set t0 \<union> {k. \<exists>r\<in>set rows. composite_key criteria r = Inr k}"
proof (induction rows arbitrary: t0 n0)
  case Nil
  then show ?case by simp
next
  case (Cons row rows)
  from Cons.prems obtain k' where k': "composite_key criteria row = Inr k'"
    and rest: "rows_loop criteria rows (dict_set k' row t0, n0 + 1) = Inr (t, n)"
    by (auto simp: rows_loop_step simp del: rows_loop.simps split: sum.splits)
  from Cons.IH [OF rest] show ?case
    using k' by (auto simp: key_set_dict_set)
qed

lemma rows_loop_entries:
  "rows_loop criteria rows (t0, n0) = Inr (t, n) \<Longrightarrow>
     \<forall>p\<in>set t0. composite_key criteria (snd p) = Inr (fst p) \<Longrightarrow>
     \<forall>p\<in>set t. composite_key criteria (snd p) = Inr (fst p)"
proof (induction rows arbitrary: t0 n0)
  case Nil
  then show ?case by simp
next
  case (Cons row rows)
  from Cons.prems obtain k' where k': "composite_key criteria row = Inr k'"
    and rest: "rows_loop criteria rows (dict_set k' row t0, n0 + 1) = Inr (t, n)"
    by (auto simp: rows_loop_step simp del: rows_loop.simps split: sum.splits)
  have "\<forall>p\<in>set (dict_set k' row t0). composite_key criteria (snd p) = Inr (fst p)"
    using set_dict_set_subset [of k' row t0] Cons.prems(2) k' by auto
  from Cons.IH [OF rest this] show ?case .
qed

lemma rows_loop_rerun:
  "distinct (map fst t) \<Longrightarrow> \<forall>p\<in>set t. composite_key criteria (snd p) = Inr (fst p) \<Longrightarrow>
     fst ` set t0 \<inter> fst ` set t = {} \<Longrightarrow>
     rows_loop criteria (map snd t) (t0, n0) = Inr (t0 @ t, n0 + int (length t))"
proof (induction t arbitrary: t0 n0)
  case Nil
  then show ?case by simp
next
  case (Cons p t)
  obtain k r where p: "p = (k, r)" by (cases p)
  from Cons.prems p have key: "composite_key criteria r = Inr k"
    and fresh: "k \<notin> fst ` set t0" by auto
  have "rows_loop criteria (map snd (p # t)) (t0, n0)
          = rows_loop criteria (map snd t) (t0 @ [(k, r)], n0 + 1)"
    by (simp add: p rows_loop_step key dict_set_fresh [OF fresh] del: rows_loop.simps)
  also have "\<dots> = Inr ((t0 @ [(k, r)]) @ t, (n0 + 1) + int (length t))"
  proof (rule Cons.IH)
    show "distinct (map fst t)" using Cons.prems(1) by simp
    show "\<forall>p\<in>set t. composite_key criteria (snd p) = Inr (fst p)" using Cons.prems(2) by simp
    show "fst ` set (t0 @ [(k, r)]) \<inter> fst ` set t = {}" using Cons.prems(1,3) p by auto
  qed
  finally show ?case by (simp add: p)
qed

section \<open>The resolver \<open>get_value_hash_function\<close>\<close>



text \<open>
  C5. If the descriptor has no key \<open>method\<close>, the resolver raises the \<open>KeyError\<close> for
  the missing attribute; if the key is there and its value is none of the three method
  names, it raises the \<open>ValueError\<close> naming that value; otherwise it returns a function.
\<close>

theorem resolver_error_contract:
  "(map_of d ATTRIBUTE_METHOD = None \<longrightarrow>
      get_value_hash_function d = Inl (KeyError msg_no_method))
   \<and> (\<forall>method. map_of d ATTRIBUTE_METHOD = Some method
        \<and> method \<notin> {METHOD_EXACT, METHOD_EXACT_CASE_INSENSITIVE,
                       METHOD_EXACT_LOWERCASE_ALPHANUMERIC} \<longrightarrow>
      get_value_hash_function d = Inl (ValueError (msg_not_recognised method)))
   \<and> (\<forall>method. map_of d ATTRIBUTE_METHOD = Some method
        \<and> method \<in> {METHOD_EXACT, METHOD_EXACT_CASE_INSENSITIVE,
                       METHOD_EXACT_LOWERCASE_ALPHANUMERIC} \<longrightarrow>
      (\<exists>f. get_value_hash_function d = Inr f))"
  by (auto simp: get_value_hash_function_def)

theorem resolver_error_contract_witness:
  "get_value_hash_function [(''params'', ''x'')] = Inl (KeyError msg_no_method)
   \<and> get_value_hash_function [(''method'', ''fuzzy'')]
       = Inl (ValueError (msg_not_recognised ''fuzzy''))
   \<and> (\<exists>f. get_value_hash_function [(''method'', ''exact_case_insensitive'')] = Inr f)"
  using resolver_error_contract [of "[(''params'', ''x'')]"]
    resolver_error_contract [of "[(''method'', ''fuzzy'')]"]
    resolver_error_contract [of "[(''method'', ''exact_case_insensitive'')]"]
  by (simp add: ATTRIBUTE_METHOD_def METHOD_EXACT_def METHOD_EXACT_CASE_INSENSITIVE_def
      METHOD_EXACT_LOWERCASE_ALPHANUMERIC_def)

end
